theory Spec2Isabelle
  imports Main "HOL-Library.Word" "HOL-Library.Sublist"
begin

section \<open>JavaScript strings\<close>

text \<open>
  A JavaScript string is a sequence of UTF-16 code units; \<open>includes\<close>, \<open>split\<close>,
  \<open>startsWith\<close> and a regular expression without the \<open>u\<close> flag all work on code
  units. The character U+2022 (the bullet of the masked placeholder) is one code unit
  and does not fit a byte, so strings are lists of 16-bit words here. \<open>ascii\<close> writes
  the ASCII literals of the source.
\<close>

type_synonym code_unit = "16 word"
type_synonym jsstring = "code_unit list"

definition ascii :: "string \<Rightarrow> jsstring" where
  "ascii s = map of_char s"

definition slash :: code_unit where "slash = 0x2F"
definition colon :: code_unit where "colon = 0x3A"
definition dollar :: code_unit where "dollar = 0x24"
definition ampersand :: code_unit where "ampersand = 0x26"
definition backtick :: code_unit where "backtick = 0x60"
definition apostrophe :: code_unit where "apostrophe = 0x27"
definition bullet :: code_unit where "bullet = 0x2022"

text \<open>
  \<open>s.split(sep)\<close> for a separator of one code unit: the segments between the
  occurrences of \<open>sep\<close>, in order; the empty string gives one empty segment.
\<close>

fun js_split :: "code_unit \<Rightarrow> jsstring \<Rightarrow> jsstring list" where
  "js_split sep [] = [[]]"
| "js_split sep (c # cs) =
     (if c = sep then [] # js_split sep cs
      else (case js_split sep cs of
              [] \<Rightarrow> [[c]]
            | seg # segs \<Rightarrow> (c # seg) # segs))"

text \<open>\<open>xs[i]\<close> on an array: \<open>undefined\<close> (here \<open>None\<close>) out of range.\<close>

definition js_index :: "'a list \<Rightarrow> nat \<Rightarrow> 'a option" where
  "js_index xs i = (if i < length xs then Some (xs ! i) else None)"

text \<open>\<open>v || d\<close> for a string or \<open>undefined\<close> on the left: the falsy values are
  \<open>undefined\<close> and the empty string.\<close>

definition js_or :: "jsstring option \<Rightarrow> jsstring \<Rightarrow> jsstring" where
  "js_or v d = (case v of None \<Rightarrow> d | Some s \<Rightarrow> if s = [] then d else s)"

section \<open>Stage2.jsx: short model names\<close>

text \<open>
  \<open>getShortModelName(modelId)\<close>, Stage2.jsx lines 6 to 16. The argument is a string,
  or \<open>null\<close>/\<open>undefined\<close> (\<open>None\<close>); \<open>!modelId\<close> holds for \<open>None\<close> and for the empty
  string.
\<close>

definition getShortModelName :: "jsstring option \<Rightarrow> jsstring" where
  "getShortModelName modelId =
     (case modelId of
        None \<Rightarrow> ascii ''Unknown''
      | Some m \<Rightarrow>
          if m = [] then ascii ''Unknown''
          else if slash \<in> set m then js_or (js_index (js_split slash m) 1) m
          else if colon \<in> set m then js_or (js_index (js_split colon m) 1) m
          else m)"

section \<open>Stage2.jsx: de-anonymising the evaluation text\<close>

text \<open>
  \<open>deAnonymizeText\<close> builds \<open>new RegExp(label, 'g')\<close> for each entry of the mapping
  and calls \<open>result.replace(regexp, template)\<close> with the template
  \<open>**shortName**\<close>. Two parts of the language are involved.

  The pattern. A label is read as a regular expression. A pattern none of whose
  characters is a syntax character of the pattern grammar matches exactly itself, code
  unit by code unit (there is no \<open>i\<close> flag); this is the case the model covers. The
  empty pattern matches the empty string at every position.
\<close>

definition syntax_characters :: "code_unit list" where
  "syntax_characters =
     [0x5E, 0x24, 0x5C, 0x2E, 0x2A, 0x2B, 0x3F, 0x28, 0x29, 0x5B, 0x5D, 0x7B, 0x7D, 0x7C]"

definition literal_pattern :: "jsstring \<Rightarrow> bool" where
  "literal_pattern label = list_all (\<lambda>c. c \<notin> set syntax_characters) label"

text \<open>
  The template. \<open>replace\<close> with a string as second argument expands it at every
  match (the GetSubstitution operation of the language): \<open>$$\<close> is a dollar sign,
  \<open>$&\<close> the matched text, \<open>$`\<close> the text before the match and \<open>$'\<close> the text
  after it. A literal pattern has no capture group, so \<open>$1\<close> and \<open>$<\<close> stay as
  they are, like every other character.
\<close>

fun getSubstitution :: "jsstring \<Rightarrow> jsstring \<Rightarrow> jsstring \<Rightarrow> jsstring \<Rightarrow> jsstring" where
  "getSubstitution matched before after [] = []"
| "getSubstitution matched before after [c] = [c]"
| "getSubstitution matched before after (c # d # rest) =
     (if c = dollar \<and> d = dollar then dollar # getSubstitution matched before after rest
      else if c = dollar \<and> d = ampersand then matched @ getSubstitution matched before after rest
      else if c = dollar \<and> d = backtick then before @ getSubstitution matched before after rest
      else if c = dollar \<and> d = apostrophe then after @ getSubstitution matched before after rest
      else c # getSubstitution matched before after (d # rest))"

text \<open>
  \<open>s.replace(new RegExp(p, 'g'), template)\<close> for a literal pattern \<open>p\<close>: the string
  is scanned from the left, \<open>pre\<close> is the part already passed; a match is replaced
  by the expanded template and the scan goes on behind it, so matches do not overlap.
\<close>

function replace_global :: "jsstring \<Rightarrow> jsstring \<Rightarrow> jsstring \<Rightarrow> jsstring \<Rightarrow> jsstring" where
  "replace_global p template pre [] =
     (if p = [] then getSubstitution p pre [] template else [])"
| "replace_global p template pre (c # cs) =
     (if p = [] then
        getSubstitution p pre (c # cs) template @ c # replace_global p template (pre @ [c]) cs
      else if prefix p (c # cs) then
        getSubstitution p pre (drop (length p) (c # cs)) template
          @ replace_global p template (pre @ p) (drop (length p) (c # cs))
      else c # replace_global p template (pre @ [c]) cs)"
  by pat_completeness auto
termination
  by (relation "measure (\<lambda>(p, template, pre, s). length s)") auto

text \<open>
  The mapping object is the list of its entries in the order of \<open>Object.entries\<close>; a
  model id may be \<open>null\<close>. The \<open>forEach\<close> of lines 23 to 26 is \<open>replace_entries\<close>.
  The result is \<open>None\<close> when a label is not a literal pattern: the source then
  matches a proper regular expression, or \<open>new RegExp\<close> throws a SyntaxError.
\<close>

type_synonym label_map = "(jsstring \<times> jsstring option) list"

definition bold :: "jsstring \<Rightarrow> jsstring" where
  "bold s = ascii ''**'' @ s @ ascii ''**''"

fun replace_entries :: "label_map \<Rightarrow> jsstring \<Rightarrow> jsstring option" where
  "replace_entries [] result = Some result"
| "replace_entries ((label, model) # entries) result =
     (if literal_pattern label then
        replace_entries entries
          (replace_global label (bold (getShortModelName model)) [] result)
      else None)"

definition deAnonymizeText :: "jsstring \<Rightarrow> label_map option \<Rightarrow> jsstring option" where
  "deAnonymizeText text labelToModel =
     (case labelToModel of
        None \<Rightarrow> Some text
      | Some entries \<Rightarrow> replace_entries entries text)"

section \<open>Stage1 and Stage2: the active tab\<close>

text \<open>
  Both components hold \<open>activeTab\<close> (initially 0, afterwards the index of a clicked
  tab) and run the same effect after a render in which the collection or the index
  changed: Stage2.jsx lines 34 to 38 and lines 11 to 15 of the Stage1 component. The
  function gives the value of \<open>activeTab\<close> after the effect. The collection may be
  \<open>null\<close> or \<open>undefined\<close> (\<open>None\<close>).
\<close>

definition Stage1_activeTab_effect :: "'a list option \<Rightarrow> nat \<Rightarrow> nat" where
  "Stage1_activeTab_effect responses activeTab =
     (case responses of
        None \<Rightarrow> activeTab
      | Some rs \<Rightarrow>
          if length rs > 0 \<and> activeTab \<ge> length rs then length rs - 1 else activeTab)"

definition Stage2_activeTab_effect :: "'a list option \<Rightarrow> nat \<Rightarrow> nat" where
  "Stage2_activeTab_effect rankings activeTab =
     (case rankings of
        None \<Rightarrow> activeTab
      | Some rs \<Rightarrow>
          if length rs > 0 \<and> activeTab \<ge> length rs then length rs - 1 else activeTab)"

text \<open>
  The tab that a render shows: nothing (\<open>None\<close>) for a missing or empty collection,
  else \<open>Math.min(activeTab, length - 1)\<close>.
\<close>

definition Stage1_safeActiveTab :: "'a list option \<Rightarrow> nat \<Rightarrow> nat option" where
  "Stage1_safeActiveTab responses activeTab =
     (case responses of
        None \<Rightarrow> None
      | Some rs \<Rightarrow> if length rs = 0 then None else Some (min activeTab (length rs - 1)))"

definition Stage2_safeActiveTab :: "'a list option \<Rightarrow> nat \<Rightarrow> nat option" where
  "Stage2_safeActiveTab rankings activeTab =
     (case rankings of
        None \<Rightarrow> None
      | Some rs \<Rightarrow> if length rs = 0 then None else Some (min activeTab (length rs - 1)))"

text \<open>
  The effect has the dependencies \<open>[rankings, activeTab]\<close> (\<open>[responses, activeTab]\<close>
  in Stage1), so it runs after every render in which the collection is a new one.
  While entries arrive the collection takes one value after another; the function
  gives the index after the effects for all of them, in order.
\<close>

fun Stage1_activeTab_stream :: "'a list option list \<Rightarrow> nat \<Rightarrow> nat" where
  "Stage1_activeTab_stream [] activeTab = activeTab"
| "Stage1_activeTab_stream (responses # later) activeTab =
     Stage1_activeTab_stream later (Stage1_activeTab_effect responses activeTab)"

fun Stage2_activeTab_stream :: "'a list option list \<Rightarrow> nat \<Rightarrow> nat" where
  "Stage2_activeTab_stream [] activeTab = activeTab"
| "Stage2_activeTab_stream (rankings # later) activeTab =
     Stage2_activeTab_stream later (Stage2_activeTab_effect rankings activeTab)"

section \<open>Settings.jsx: data\<close>

text \<open>
  A catalog entry as \<open>api.getModels\<close> delivers it (\<open>id\<close>, \<open>name\<close>, \<open>is_free\<close>).
\<close>

record model =
  model_id :: jsstring
  model_name :: jsstring
  is_free :: bool

text \<open>
  An element of the \<open>councilModels\<close> array. Writing behind the end of a JavaScript
  array leaves holes; a spread reads a hole as \<open>undefined\<close>, while \<open>filter\<close> and
  \<open>map\<close> skip holes but not \<open>undefined\<close>. Both therefore appear beside a model id.
\<close>

datatype slot = Hole | Undefined | Id jsstring

text \<open>The object that \<open>api.getSettings\<close> resolves to; a missing property is \<open>None\<close>.\<close>

record settings_data =
  search_provider :: "jsstring option"
  full_content_results :: "int option"
  council_models :: "slot list option"
  chairman_model :: "jsstring option"
  tavily_api_key_set :: bool
  brave_api_key_set :: bool
  openrouter_api_key_set :: bool

text \<open>The object that \<open>api.getModels\<close> resolves to.\<close>

record models_response =
  models :: "model list option"
  models_error :: "jsstring option"

text \<open>
  The \<open>updates\<close> object of \<open>handleSave\<close>: a partial map from its property names to
  values.
\<close>

datatype field =
  Search_provider | Full_content_results | Council_models | Chairman_model
| Tavily_api_key | Brave_api_key | Openrouter_api_key

datatype jsvalue = Str jsstring | Num int | Arr "slot list"

type_synonym payload = "field \<rightharpoonup> jsvalue"

text \<open>
  The module \<open>../api\<close> is imported by Settings.jsx and is not part of the sources at
  hand, so the collaborator is a parameter: what each of its calls answers. \<open>None\<close>
  and \<open>False\<close> stand for a rejected promise.
\<close>

record api =
  getSettings :: "settings_data option"
  getModels :: "models_response option"
  updateSettings :: "payload \<Rightarrow> bool"

datatype api_call = GetSettings | GetModels | UpdateSettings payload

text \<open>The state of the component: its \<open>useState\<close> cells that the handlers below use.\<close>

record settings_view =
  settings :: "settings_data option"
  selectedProvider :: jsstring
  fullContentResults :: int
  tavilyApiKey :: jsstring
  braveApiKey :: jsstring
  openrouterApiKey :: jsstring
  councilModels :: "slot list"
  chairmanModel :: jsstring
  availableModels :: "model list"
  isLoadingModels :: bool
  showFreeOnly :: bool
  isSaving :: bool
  error :: "jsstring option"
  success :: bool

text \<open>The initial values of lines 30 to 49.\<close>

definition initial_view :: settings_view where
  "initial_view =
     \<lparr> settings = None, selectedProvider = ascii ''duckduckgo'', fullContentResults = 3,
       tavilyApiKey = [], braveApiKey = [], openrouterApiKey = [],
       councilModels = [], chairmanModel = [], availableModels = [],
       isLoadingModels = False, showFreeOnly = False, isSaving = False,
       error = None, success = False \<rparr>"

text \<open>
  The placeholder shown in a key input when the server holds a key: sixteen bullets
  (lines 279, 320 and 387).
\<close>

definition masked_placeholder :: jsstring where
  "masked_placeholder = replicate 16 bullet"

section \<open>Settings.jsx: loading\<close>

text \<open>
  \<open>loadModels\<close>, lines 70 to 84, and \<open>loadSettings\<close>, lines 55 to 68. Each returns
  the state when the handler has finished and the calls it made, in order.
\<close>

definition loadModels :: "api \<Rightarrow> settings_view \<Rightarrow> settings_view \<times> api_call list" where
  "loadModels a st =
     (let st1 = st\<lparr>isLoadingModels := True\<rparr>;
          st2 = (case getModels a of
                   None \<Rightarrow> st1
                 | Some data \<Rightarrow>
                     (case models data of
                        None \<Rightarrow> st1
                      | Some ms \<Rightarrow>
                          if length ms > 0 then st1\<lparr>availableModels := ms\<rparr> else st1))
      in (st2\<lparr>isLoadingModels := False\<rparr>, [GetModels]))"

definition loadSettings :: "api \<Rightarrow> settings_view \<Rightarrow> settings_view \<times> api_call list" where
  "loadSettings a st =
     (case getSettings a of
        None \<Rightarrow> (st\<lparr>error := Some (ascii ''Failed to load settings'')\<rparr>, [GetSettings])
      | Some data \<Rightarrow>
          (let st1 = st\<lparr>settings := Some data,
                        selectedProvider := js_or (search_provider data) (ascii ''duckduckgo''),
                        fullContentResults :=
                          (case full_content_results data of None \<Rightarrow> 3 | Some n \<Rightarrow> n),
                        councilModels :=
                          (case council_models data of None \<Rightarrow> [] | Some ms \<Rightarrow> ms),
                        chairmanModel := js_or (chairman_model data) []\<rparr>;
               (st2, calls) = loadModels a st1
           in (st2, GetSettings # calls)))"

section \<open>Settings.jsx: the council roster\<close>

text \<open>\<open>[...prev]\<close>: a copy in which every hole reads as \<open>undefined\<close>.\<close>

definition spread :: "slot list \<Rightarrow> slot list" where
  "spread xs = map (\<lambda>s. if s = Hole then Undefined else s) xs"

text \<open>
  \<open>xs[i] = v\<close> for an integer \<open>i\<close>: inside the array the element is replaced; from
  the length on, the array grows to \<open>i + 1\<close> elements with holes in between; a
  negative \<open>i\<close>, or one from \<open>2^32 - 1\<close> on, is no array index, the assignment then
  makes a named property and no element changes.
\<close>

definition array_assign :: "slot list \<Rightarrow> int \<Rightarrow> slot \<Rightarrow> slot list" where
  "array_assign xs i v =
     (if i < 0 \<or> i \<ge> 2 ^ 32 - 1 then xs
      else if nat i < length xs then xs[nat i := v]
      else xs @ replicate (nat i - length xs) Hole @ [v])"

text \<open>\<open>handleCouncilModelChange\<close>, lines 143 to 149.\<close>

definition handleCouncilModelChange :: "int \<Rightarrow> jsstring \<Rightarrow> settings_view \<Rightarrow> settings_view" where
  "handleCouncilModelChange index modelId st =
     st\<lparr>councilModels := array_assign (spread (councilModels st)) index (Id modelId)\<rparr>"

text \<open>\<open>filteredModels\<close>, lines 164 to 166 (and 152 to 154).\<close>

definition filteredModels :: "settings_view \<Rightarrow> model list" where
  "filteredModels st =
     (if showFreeOnly st then filter is_free (availableModels st) else availableModels st)"

text \<open>\<open>handleAddCouncilMember\<close>, lines 151 to 158.\<close>

definition handleAddCouncilMember :: "settings_view \<Rightarrow> settings_view" where
  "handleAddCouncilMember st =
     (case filteredModels st of
        [] \<Rightarrow> st
      | m # _ \<Rightarrow> st\<lparr>councilModels := spread (councilModels st) @ [Id (model_id m)]\<rparr>)"

text \<open>
  \<open>handleRemoveCouncilMember\<close>, lines 160 to 162: \<open>filter\<close> visits the elements that
  are not holes and keeps those whose index differs from \<open>index\<close>.
\<close>

definition handleRemoveCouncilMember :: "int \<Rightarrow> settings_view \<Rightarrow> settings_view" where
  "handleRemoveCouncilMember index st =
     st\<lparr>councilModels :=
          map snd (filter (\<lambda>(i, s). s \<noteq> Hole \<and> int i \<noteq> index)
                          (enumerate 0 (councilModels st)))\<rparr>"

text \<open>
  The remove button of a row, lines 474 to 482. The form is rendered once the settings
  are loaded (line 224); \<open>councilModels.map\<close> makes a row for every element that is
  not a hole; the button is disabled while at most one member is left. A click on a
  button that is not there or is disabled does nothing.
\<close>

definition remove_member_button_disabled :: "settings_view \<Rightarrow> bool" where
  "remove_member_button_disabled st = (length (councilModels st) \<le> 1)"

definition click_remove_member :: "nat \<Rightarrow> settings_view \<Rightarrow> settings_view" where
  "click_remove_member index st =
     (if settings st = None then st
      else if \<not> index < length (councilModels st) then st
      else if councilModels st ! index = Hole then st
      else if remove_member_button_disabled st then st
      else handleRemoveCouncilMember (int index) st)"

section \<open>Settings.jsx: the chairman select\<close>

text \<open>\<open>chairmanModels\<close>, lines 168 and 169.\<close>

definition chairmanModels :: "settings_view \<Rightarrow> model list" where
  "chairmanModels st = filter (\<lambda>m. \<not> is_free m) (availableModels st)"

text \<open>
  The options of the chairman select, lines 511 to 521, each as its value and its
  text: one for every eligible model, then one for the current value when no eligible
  model has that id.
\<close>

definition chairman_options :: "settings_view \<Rightarrow> (jsstring \<times> jsstring) list" where
  "chairman_options st =
     map (\<lambda>m. (model_id m, model_name m)) (chairmanModels st) @
     (case find (\<lambda>m. model_id m = chairmanModel st) (chairmanModels st) of
        Some _ \<Rightarrow> []
      | None \<Rightarrow>
          [(chairmanModel st,
            js_or (map_option model_name
                     (find (\<lambda>m. model_id m = chairmanModel st) (availableModels st)))
                  (chairmanModel st)
              @ ascii '' (not recommended)'')])"

section \<open>Settings.jsx: saving\<close>

text \<open>\<open>s.startsWith(p)\<close>.\<close>

definition startsWith :: "jsstring \<Rightarrow> jsstring \<Rightarrow> bool" where
  "startsWith s p = prefix p s"

text \<open>The condition of lines 195, 199 and 203 on a key input.\<close>

definition key_changed :: "jsstring \<Rightarrow> bool" where
  "key_changed k = (k \<noteq> [] \<and> \<not> startsWith k [bullet])"

text \<open>The \<open>updates\<close> object that \<open>handleSave\<close> builds in lines 187 to 205.\<close>

definition handleSave_updates :: "settings_view \<Rightarrow> payload" where
  "handleSave_updates st =
     (let u0 = [Search_provider \<mapsto> Str (selectedProvider st),
                Full_content_results \<mapsto> Num (fullContentResults st),
                Council_models \<mapsto> Arr (councilModels st),
                Chairman_model \<mapsto> Str (chairmanModel st)];
          u1 = (if key_changed (tavilyApiKey st)
                then u0(Tavily_api_key \<mapsto> Str (tavilyApiKey st)) else u0);
          u2 = (if key_changed (braveApiKey st)
                then u1(Brave_api_key \<mapsto> Str (braveApiKey st)) else u1);
          u3 = (if key_changed (openrouterApiKey st)
                then u2(Openrouter_api_key \<mapsto> Str (openrouterApiKey st)) else u2)
      in u3)"

text \<open>
  \<open>handleSave\<close>, lines 181 to 222: the state when the handler has finished and the
  calls it made. The timer of line 216, which takes the success notice away three
  seconds later, is not part of it.
\<close>

definition handleSave :: "api \<Rightarrow> settings_view \<Rightarrow> settings_view \<times> api_call list" where
  "handleSave a st =
     (let st0 = st\<lparr>isSaving := True, error := None, success := False\<rparr>;
          updates = handleSave_updates st
      in if updateSettings a updates then
           (let st1 = st0\<lparr>success := True, tavilyApiKey := [], braveApiKey := [],
                          openrouterApiKey := []\<rparr>;
                (st2, calls) = loadSettings a st1
            in (st2\<lparr>isSaving := False\<rparr>, UpdateSettings updates # calls))
         else
           (st0\<lparr>error := Some (ascii ''Failed to save settings''), isSaving := False\<rparr>,
            [UpdateSettings updates]))"

text \<open>
  The save button, lines 532 to 538: rendered once the settings are loaded, disabled
  while a save is running or the roster is empty. A click on the disabled button does
  nothing and makes no call.
\<close>

definition save_button_disabled :: "settings_view \<Rightarrow> bool" where
  "save_button_disabled st = (isSaving st \<or> length (councilModels st) = 0)"

definition click_save :: "api \<Rightarrow> settings_view \<Rightarrow> settings_view \<times> api_call list" where
  "click_save a st =
     (if settings st = None then (st, [])
      else if save_button_disabled st then (st, [])
      else handleSave a st)"

section \<open>The persistence collaborator\<close>





section \<open>Sample data\<close>

text \<open>Concrete values on which the theorems below are instantiated.\<close>

definition blank_settings :: settings_data where
  "blank_settings =
     \<lparr> search_provider = None, full_content_results = None, council_models = None,
       chairman_model = None, tavily_api_key_set = False, brave_api_key_set = False,
       openrouter_api_key_set = False \<rparr>"

definition sample_catalog :: "model list" where
  "sample_catalog =
     [\<lparr>model_id = ascii ''v/paid'', model_name = ascii ''Paid'', is_free = False\<rparr>,
      \<lparr>model_id = ascii ''v/free'', model_name = ascii ''Free'', is_free = True\<rparr>]"

definition sample_view :: settings_view where
  "sample_view =
     initial_view\<lparr>availableModels := sample_catalog, chairmanModel := ascii ''v/free''\<rparr>"

definition sample_draft :: settings_view where
  "sample_draft =
     initial_view\<lparr>settings := Some blank_settings, tavilyApiKey := ascii ''k1'',
                  councilModels := [Id (ascii ''v/paid'')]\<rparr>"

definition accepting_api :: api where
  "accepting_api =
     \<lparr>getSettings = Some blank_settings, getModels = None, updateSettings = (\<lambda>u. True)\<rparr>"

definition rejecting_api :: api where
  "rejecting_api =
     \<lparr>getSettings = Some blank_settings, getModels = None, updateSettings = (\<lambda>u. False)\<rparr>"


section \<open>Properties of short model names\<close>

lemma js_split_nonempty: "js_split sep s \<noteq> []"
  by (induction s) (auto split: list.splits)

lemma js_split_absent: "sep \<notin> set s \<Longrightarrow> js_split sep s = [s]"
  by (induction s) auto

lemma js_split_append:
  "sep \<notin> set a \<Longrightarrow> js_split sep (a @ sep # b) = a # js_split sep b"
  by (induction a) auto

lemma js_split_hd: "hd (js_split sep s) = takeWhile (\<lambda>c. c \<noteq> sep) s"
  using js_split_nonempty [of sep]
  by (induction s) (auto split: list.splits)

lemma js_split_second:
  assumes "sep \<in> set s"
  shows "js_index (js_split sep s) (Suc 0) =
         Some (takeWhile (\<lambda>c. c \<noteq> sep) (tl (dropWhile (\<lambda>c. c \<noteq> sep) s)))"
proof -
  obtain a b where s: "s = a @ sep # b" and a: "sep \<notin> set a"
    using assms by (meson split_list_first)
  have d: "dropWhile (\<lambda>c. c \<noteq> sep) s = sep # b"
    unfolding s using a by (induction a) auto
  have "js_split sep s = a # js_split sep b"
    using a by (simp add: s js_split_append)
  moreover obtain x xs where x: "js_split sep b = x # xs"
    using js_split_nonempty [of sep b] by (cases "js_split sep b") auto
  moreover have "x = takeWhile (\<lambda>c. c \<noteq> sep) b"
    using js_split_hd [of sep b] x by simp
  ultimately show ?thesis
    by (simp add: js_index_def d)
qed

text \<open>
  C2 (as amended). The short name of a missing or empty id is "Unknown". For an id
  that contains a slash it is the segment between the first slash and the next one
  (or the end of the id), unless that segment is empty, and then the id itself; for
  an id with no slash and a colon, the same with the colon; otherwise the id. So
  "a/b" gives "b" and "a:b" gives "b" whenever b is not empty and holds no further
  separator, and an id without separators is unchanged.
\<close>

theorem getShortModelName_segment:
  "getShortModelName None = ascii ''Unknown'' \<and>
   getShortModelName (Some []) = ascii ''Unknown'' \<and>
   (m \<noteq> [] \<and> slash \<in> set m \<longrightarrow>
      getShortModelName (Some m) =
        (let seg = takeWhile (\<lambda>c. c \<noteq> slash) (tl (dropWhile (\<lambda>c. c \<noteq> slash) m))
         in if seg = [] then m else seg)) \<and>
   (m \<noteq> [] \<and> slash \<notin> set m \<and> colon \<in> set m \<longrightarrow>
      getShortModelName (Some m) =
        (let seg = takeWhile (\<lambda>c. c \<noteq> colon) (tl (dropWhile (\<lambda>c. c \<noteq> colon) m))
         in if seg = [] then m else seg)) \<and>
   (m \<noteq> [] \<and> slash \<notin> set m \<and> colon \<notin> set m \<longrightarrow> getShortModelName (Some m) = m) \<and>
   (b \<noteq> [] \<and> slash \<notin> set a \<and> slash \<notin> set b \<longrightarrow>
      getShortModelName (Some (a @ slash # b)) = b) \<and>
   (b \<noteq> [] \<and> slash \<notin> set a \<and> slash \<notin> set b \<and> colon \<notin> set a \<and> colon \<notin> set b \<longrightarrow>
      getShortModelName (Some (a @ colon # b)) = b)"
proof -
  have 1: "getShortModelName None = ascii ''Unknown''"
    by (simp add: getShortModelName_def)
  have 2: "getShortModelName (Some []) = ascii ''Unknown''"
    by (simp add: getShortModelName_def)
  have 3: "getShortModelName (Some m) =
        (let seg = takeWhile (\<lambda>c. c \<noteq> slash) (tl (dropWhile (\<lambda>c. c \<noteq> slash) m))
         in if seg = [] then m else seg)" if "m \<noteq> []" "slash \<in> set m"
    using that by (simp add: getShortModelName_def js_split_second js_or_def Let_def)
  have 4: "getShortModelName (Some m) =
        (let seg = takeWhile (\<lambda>c. c \<noteq> colon) (tl (dropWhile (\<lambda>c. c \<noteq> colon) m))
         in if seg = [] then m else seg)" if "m \<noteq> []" "slash \<notin> set m" "colon \<in> set m"
    using that by (simp add: getShortModelName_def js_split_second js_or_def Let_def)
  have 5: "getShortModelName (Some m) = m" if "m \<noteq> []" "slash \<notin> set m" "colon \<notin> set m"
    using that by (simp add: getShortModelName_def)
  have 6: "getShortModelName (Some (a @ slash # b)) = b"
    if "b \<noteq> []" "slash \<notin> set a" "slash \<notin> set b"
    using that
    by (simp add: getShortModelName_def js_split_append js_split_absent js_index_def js_or_def)
  have sc: "slash \<noteq> colon"
    by (simp add: slash_def colon_def)
  have 7: "getShortModelName (Some (a @ colon # b)) = b"
    if "b \<noteq> []" "slash \<notin> set a" "slash \<notin> set b" "colon \<notin> set a" "colon \<notin> set b"
    using that sc
    by (simp add: getShortModelName_def js_split_append js_split_absent js_index_def js_or_def)
  from 1 2 3 4 5 6 7 show ?thesis
    by blast
qed

theorem getShortModelName_segment_witness:
  "getShortModelName (Some (ascii ''a/b'')) = ascii ''b'' \<and>
   getShortModelName (Some (ascii ''a:b'')) = ascii ''b'' \<and>
   getShortModelName (Some (ascii ''a'')) = ascii ''a'' \<and>
   getShortModelName (Some (ascii ''a/'')) = ascii ''a/'' \<and>
   getShortModelName None = ascii ''Unknown''"
  using getShortModelName_segment [of "ascii ''a''" "ascii ''b''" "ascii ''a''"]
    getShortModelName_segment [of "ascii ''a/''" "[]" "[]"]
  by (simp add: ascii_def slash_def colon_def)

text \<open>
  The claim as written fails for an id with a second slash: after the first slash of
  "a/b/c" comes "b/c", and the code returns "b".
\<close>

theorem getShortModelName_after_first_counterexample:
  "getShortModelName (Some (ascii ''a/b/c'')) = ascii ''b'' \<and>
   getShortModelName (Some (ascii ''a/b/c'')) \<noteq> ascii ''b/c''"
  by (simp add: getShortModelName_def ascii_def slash_def colon_def js_index_def js_or_def)

section \<open>Properties of de-anonymising\<close>

lemma getSubstitution_plain:
  "dollar \<notin> set template \<Longrightarrow> getSubstitution matched before after template = template"
  by (induction matched before after template rule: getSubstitution.induct) auto

lemma replace_global_absent:
  "p \<noteq> [] \<Longrightarrow> \<not> sublist p s \<Longrightarrow> replace_global p template pre s = s"
proof (induction s arbitrary: pre)
  case Nil
  then show ?case by simp
next
  case (Cons c cs)
  from Cons.prems have "\<not> prefix p (c # cs)" and "\<not> sublist p cs"
    by (auto simp: sublist_Cons_right)
  with Cons show ?case by simp
qed

lemma replace_global_match:
  "p \<noteq> [] \<Longrightarrow>
   replace_global p template pre (p @ s) =
     getSubstitution p pre s template @ replace_global p template (pre @ p) s"
  by (cases p) simp_all

lemma replace_global_first:
  assumes "p \<noteq> []" and "\<not> sublist p (a @ butlast p)"
  shows "replace_global p template pre (a @ p @ s) =
         a @ getSubstitution p (pre @ a) s template @ replace_global p template (pre @ a @ p) s"
  using assms(2)
proof (induction a arbitrary: pre)
  case Nil
  then show ?case
    using assms(1) by (simp add: replace_global_match)
next
  case (Cons x a)
  have np: "\<not> prefix p (x # a @ p @ s)"
  proof
    assume pr: "prefix p (x # a @ p @ s)"
    have "x # a @ p @ s = (x # a @ butlast p) @ last p # s"
      using assms(1) by simp
    then have "prefix (x # a @ butlast p) (x # a @ p @ s)"
      by (metis prefixI)
    moreover have "length p \<le> length (x # a @ butlast p)"
      by simp
    ultimately have "prefix p (x # a @ butlast p)"
      using pr prefix_length_prefix by blast
    then show False
      using Cons.prems by (auto simp: sublist_Cons_right)
  qed
  have "\<not> sublist p (a @ butlast p)"
    using Cons.prems by (auto simp: sublist_Cons_right)
  then show ?case
    using np assms(1) Cons.IH [of "pre @ [x]"] by simp
qed



lemma replace_global_pre:
  assumes "dollar \<notin> set template"
  shows "replace_global p template pre s = replace_global p template [] s"
proof (induction s arbitrary: pre rule: length_induct)
  case (1 s)
  note sub = getSubstitution_plain [OF assms]
  show ?case
  proof (cases s)
    case Nil
    then show ?thesis
      by (simp add: sub)
  next
    case (Cons c cs)
    have a: "replace_global p template q cs = replace_global p template [] cs" for q
      using 1 [rule_format, of cs q] Cons by simp
    have b: "replace_global p template q (drop (length p) (c # cs)) =
             replace_global p template [] (drop (length p) (c # cs))" if "p \<noteq> []" for q
    proof -
      have "length (drop (length p) (c # cs)) < length s"
        using that Cons by (cases p) simp_all
      then show ?thesis
        using 1 [rule_format, of "drop (length p) (c # cs)" q] by simp
    qed
    show ?thesis
    proof (cases "p = []")
      case True
      then show ?thesis
        using a [of "pre @ [c]"] a [of "[c]"] by (simp add: Cons sub)
    next
      case np: False
      show ?thesis
      proof (cases "prefix p (c # cs)")
        case True
        then show ?thesis
          using np b [OF np, of "pre @ p"] b [OF np, of p] by (simp add: Cons sub)
      next
        case False
        then show ?thesis
          using np a [of "pre @ [c]"] a [of "[c]"] by (simp add: Cons sub)
      qed
    qed
  qed
qed

lemma bold_no_dollar: "dollar \<notin> set s \<Longrightarrow> dollar \<notin> set (bold s)"
  by (simp add: bold_def ascii_def dollar_def)

lemma replace_entries_append:
  "replace_entries (es1 @ es2) str =
     Option.bind (replace_entries es1 str) (replace_entries es2)"
  by (induction es1 str rule: replace_entries.induct) auto

text \<open>
  C1 (as amended). Without a mapping the text is returned as it is. The entries of a
  mapping are applied one after another, each to the result of the one before. An
  entry whose label is a non-empty literal pattern and whose short name has no dollar
  sign leaves a text in which the label does not occur as it is; and where the first
  occurrence of the label as a substring starts right after \<open>a\<close>, it keeps \<open>a\<close>,
  puts the bolded short name in place of the label and treats the rest of the text in
  the same way. The label is matched as a substring, with no check of word boundaries.
\<close>

theorem deAnonymizeText_substring:
  "deAnonymizeText str None = Some str \<and>
   deAnonymizeText str (Some (es1 @ es2)) =
     Option.bind (deAnonymizeText str (Some es1)) (\<lambda>r. deAnonymizeText r (Some es2)) \<and>
   (literal_pattern label \<and> label \<noteq> [] \<and> dollar \<notin> set (getShortModelName model) \<longrightarrow>
      (\<not> sublist label str \<longrightarrow> deAnonymizeText str (Some [(label, model)]) = Some str) \<and>
      (\<not> sublist label (a @ butlast label) \<longrightarrow>
         deAnonymizeText (a @ label @ b) (Some [(label, model)]) =
           map_option (\<lambda>r. a @ bold (getShortModelName model) @ r)
             (deAnonymizeText b (Some [(label, model)]))))"
proof -
  have 1: "deAnonymizeText str None = Some str"
    by (simp add: deAnonymizeText_def)
  have 2: "deAnonymizeText str (Some (es1 @ es2)) =
     Option.bind (deAnonymizeText str (Some es1)) (\<lambda>r. deAnonymizeText r (Some es2))"
    by (simp add: deAnonymizeText_def replace_entries_append)
  have 3: "deAnonymizeText str (Some [(label, model)]) = Some str"
    if "literal_pattern label" "label \<noteq> []" "\<not> sublist label str"
    using that by (simp add: deAnonymizeText_def replace_global_absent)
  have 4: "deAnonymizeText (a @ label @ b) (Some [(label, model)]) =
           map_option (\<lambda>r. a @ bold (getShortModelName model) @ r)
             (deAnonymizeText b (Some [(label, model)]))"
    if lit: "literal_pattern label" and ne: "label \<noteq> []"
      and nd: "dollar \<notin> set (getShortModelName model)"
      and first: "\<not> sublist label (a @ butlast label)"
  proof -
    let ?t = "bold (getShortModelName model)"
    have t: "dollar \<notin> set ?t"
      using nd by (rule bold_no_dollar)
    have "replace_global label ?t [] (a @ label @ b) =
          a @ ?t @ replace_global label ?t ([] @ a @ label) b"
      using replace_global_first [OF ne first, of ?t "[]" b]
      by (simp add: getSubstitution_plain [OF t])
    also have "replace_global label ?t ([] @ a @ label) b = replace_global label ?t [] b"
      by (rule replace_global_pre [OF t])
    finally show ?thesis
      using lit by (simp add: deAnonymizeText_def)
  qed
  from 1 2 3 4 show ?thesis
    by blast
qed


theorem deAnonymizeText_substring_witness:
  "literal_pattern (ascii ''Response A'') \<and>
   dollar \<notin> set (getShortModelName (Some (ascii ''openrouter/gpt-5''))) \<and>
   \<not> sublist (ascii ''Response A'') (ascii '' wins'') \<and>
   deAnonymizeText (ascii ''Response A wins'')
     (Some [(ascii ''Response A'', Some (ascii ''openrouter/gpt-5''))]) =
     Some (ascii ''**gpt-5** wins'')"
proof -
  let ?label = "ascii ''Response A''"
  let ?model = "Some (ascii ''openrouter/gpt-5'')"
  let ?rest = "ascii '' wins''"
  have name: "getShortModelName ?model = ascii ''gpt-5''"
    by (simp add: getShortModelName_def ascii_def slash_def colon_def js_index_def js_or_def)
  have lit: "literal_pattern ?label"
    by (simp add: literal_pattern_def syntax_characters_def ascii_def)
  have ne: "?label \<noteq> []"
    by (simp add: ascii_def)
  have nd: "dollar \<notin> set (getShortModelName ?model)"
    by (simp add: name) (simp add: ascii_def dollar_def)
  have absent: "\<not> sublist ?label ?rest"
    by (simp add: ascii_def sublist_Cons_right)
  have first: "\<not> sublist ?label ([] @ butlast ?label)"
    by (simp add: ascii_def sublist_Cons_right)
  have "deAnonymizeText ([] @ ?label @ ?rest) (Some [(?label, ?model)]) =
        Some ([] @ bold (getShortModelName ?model) @ ?rest)"
    using deAnonymizeText_substring [of ?rest "[]" "[]" ?label ?model "[]" ?rest]
      lit ne nd absent first
    by simp
  moreover have "[] @ ?label @ ?rest = ascii ''Response A wins''"
    by (simp add: ascii_def)
  moreover have "[] @ bold (getShortModelName ?model) @ ?rest = ascii ''**gpt-5** wins''"
    by (simp add: name) (simp add: bold_def ascii_def)
  ultimately show ?thesis
    using lit nd absent by simp
qed

text \<open>
  The text "Response AB" with the labels "Response A" and "Response AB" mapped in
  this order: the first entry rewrites the beginning of the longer label, which is
  then never replaced by its own name. With "Response A" alone in the mapping, the
  unmapped label "Response AB" is not left as it is.
\<close>

theorem deAnonymizeText_whole_token_counterexample:
  "deAnonymizeText (ascii ''Response AB'')
     (Some [(ascii ''Response A'', Some (ascii ''v/m1'')),
            (ascii ''Response AB'', Some (ascii ''v/m2''))]) =
     Some (ascii ''**m1**B'') \<and>
   deAnonymizeText (ascii ''Response AB'')
     (Some [(ascii ''Response A'', Some (ascii ''v/m1'')),
            (ascii ''Response AB'', Some (ascii ''v/m2''))]) \<noteq>
     Some (ascii ''**m2**'') \<and>
   deAnonymizeText (ascii ''Response AB'') (Some [(ascii ''Response A'', Some (ascii ''v/m1''))]) =
     Some (ascii ''**m1**B'') \<and>
   deAnonymizeText (ascii ''Response AB'') (Some [(ascii ''Response A'', Some (ascii ''v/m1''))]) \<noteq>
     Some (ascii ''Response AB'')"
proof -
  have n1: "getShortModelName (Some (ascii ''v/m1'')) = ascii ''m1''"
    and n2: "getShortModelName (Some (ascii ''v/m2'')) = ascii ''m2''"
    by (simp_all add: getShortModelName_def ascii_def slash_def colon_def js_index_def js_or_def)
  have l1: "literal_pattern (ascii ''Response A'')"
    and l2: "literal_pattern (ascii ''Response AB'')"
    by (simp_all add: literal_pattern_def syntax_characters_def ascii_def)
  have r1: "replace_global (ascii ''Response A'') (bold (ascii ''m1'')) [] (ascii ''Response AB'') =
            ascii ''**m1**B''"
    by (simp add: bold_def ascii_def dollar_def)
  have r2: "replace_global (ascii ''Response AB'') (bold (ascii ''m2'')) [] (ascii ''**m1**B'') =
            ascii ''**m1**B''"
    by (simp add: bold_def ascii_def dollar_def)
  have "ascii ''**m1**B'' \<noteq> ascii ''**m2**''" "ascii ''**m1**B'' \<noteq> ascii ''Response AB''"
    by (simp_all add: ascii_def)
  then show ?thesis
    by (simp add: deAnonymizeText_def n1 n2 l1 l2 r1 r2)
qed

section \<open>Properties of the council roster\<close>

lemma spread_no_hole: "Hole \<notin> set xs \<Longrightarrow> spread xs = xs"
  by (induction xs) (auto simp: spread_def)

text \<open>
  C6 (as amended). On a roster without holes, \<open>handleCouncilModelChange\<close> with an
  index inside the roster replaces the id at that index and nothing else, whatever the
  other members are (duplicates are permitted); with a negative index it changes
  nothing; with an index from the length of the roster on it is not a no-op: the
  roster grows to \<open>index + 1\<close> elements, the new id last and holes before it.
\<close>

theorem handleCouncilModelChange_cases:
  "(0 \<le> i \<and> i < 2 ^ 32 - 1 \<and> nat i < length (councilModels st) \<and> Hole \<notin> set (councilModels st) \<longrightarrow>
      handleCouncilModelChange i m st =
        st\<lparr>councilModels := (councilModels st)[nat i := Id m]\<rparr>) \<and>
   (i < 0 \<and> Hole \<notin> set (councilModels st) \<longrightarrow> handleCouncilModelChange i m st = st) \<and>
   (int (length (councilModels st)) \<le> i \<and> i < 2 ^ 32 - 1 \<and> Hole \<notin> set (councilModels st) \<longrightarrow>
      handleCouncilModelChange i m st =
        st\<lparr>councilModels :=
             councilModels st @ replicate (nat i - length (councilModels st)) Hole @ [Id m]\<rparr>)"
  by (auto simp add: handleCouncilModelChange_def array_assign_def spread_no_hole)

theorem handleCouncilModelChange_cases_witness:
  "handleCouncilModelChange 1 (ascii ''x'')
     (initial_view\<lparr>councilModels := [Id (ascii ''a''), Id (ascii ''b'')]\<rparr>) =
   initial_view\<lparr>councilModels := [Id (ascii ''a''), Id (ascii ''x'')]\<rparr> \<and>
   handleCouncilModelChange 0 (ascii ''b'')
     (initial_view\<lparr>councilModels := [Id (ascii ''a''), Id (ascii ''b'')]\<rparr>) =
   initial_view\<lparr>councilModels := [Id (ascii ''b''), Id (ascii ''b'')]\<rparr> \<and>
   handleCouncilModelChange (- 1) (ascii ''x'')
     (initial_view\<lparr>councilModels := [Id (ascii ''a''), Id (ascii ''b'')]\<rparr>) =
   initial_view\<lparr>councilModels := [Id (ascii ''a''), Id (ascii ''b'')]\<rparr> \<and>
   handleCouncilModelChange 3 (ascii ''x'')
     (initial_view\<lparr>councilModels := [Id (ascii ''a''), Id (ascii ''b'')]\<rparr>) =
   initial_view\<lparr>councilModels := [Id (ascii ''a''), Id (ascii ''b''), Hole, Id (ascii ''x'')]\<rparr>"
  using
    handleCouncilModelChange_cases [of 1 "initial_view\<lparr>councilModels := [Id (ascii ''a''), Id (ascii ''b'')]\<rparr>" "ascii ''x''"]
    handleCouncilModelChange_cases [of 0 "initial_view\<lparr>councilModels := [Id (ascii ''a''), Id (ascii ''b'')]\<rparr>" "ascii ''b''"]
    handleCouncilModelChange_cases [of "- 1" "initial_view\<lparr>councilModels := [Id (ascii ''a''), Id (ascii ''b'')]\<rparr>" "ascii ''x''"]
    handleCouncilModelChange_cases [of 3 "initial_view\<lparr>councilModels := [Id (ascii ''a''), Id (ascii ''b'')]\<rparr>" "ascii ''x''"]
  by (simp add: numeral_eq_Suc)

text \<open>
  Index 3 is out of bounds for a roster of one member; the roster has four elements
  afterwards.
\<close>

theorem handleCouncilModelChange_out_of_bounds_counterexample:
  "\<not> (3::int) < int (length [Id (ascii ''a'')]) \<and>
   councilModels (handleCouncilModelChange 3 (ascii ''x'')
     (initial_view\<lparr>councilModels := [Id (ascii ''a'')]\<rparr>)) =
     [Id (ascii ''a''), Hole, Hole, Id (ascii ''x'')] \<and>
   councilModels (handleCouncilModelChange 3 (ascii ''x'')
     (initial_view\<lparr>councilModels := [Id (ascii ''a'')]\<rparr>)) \<noteq> [Id (ascii ''a'')]"
  by (simp add: handleCouncilModelChange_def array_assign_def spread_def numeral_eq_Suc)

text \<open>
  C5. When the roster has exactly one member, the remove button is disabled and a
  click on it, at any index, leaves the state and so the roster unchanged; and from a
  roster that is not empty (and has no holes) no click on a remove button leads to an
  empty roster.
\<close>

theorem remove_last_member_refused:
  "(length (councilModels st) = 1 \<longrightarrow> click_remove_member index st = st) \<and>
   (councilModels st \<noteq> [] \<and> Hole \<notin> set (councilModels st) \<longrightarrow>
      councilModels (click_remove_member index st) \<noteq> [])"
proof -
  have 1: "click_remove_member index st = st" if "length (councilModels st) = 1"
    using that by (simp add: click_remove_member_def remove_member_button_disabled_def)
  have 2: "councilModels (click_remove_member index st) \<noteq> []"
    if ne: "councilModels st \<noteq> []" and nh: "Hole \<notin> set (councilModels st)"
  proof (cases "click_remove_member index st = st")
    case True
    then show ?thesis using ne by simp
  next
    case False
    then have len: "2 \<le> length (councilModels st)"
      and eq: "click_remove_member index st = handleRemoveCouncilMember (int index) st"
      by (auto simp: click_remove_member_def remove_member_button_disabled_def split: if_splits)
    define j :: nat where "j = (if index = 0 then 1 else 0)"
    have j: "j < length (councilModels st)" "j \<noteq> index"
      using len by (auto simp: j_def)
    have "(j, councilModels st ! j) \<in> set (enumerate 0 (councilModels st))"
      using j by (simp add: in_set_enumerate_eq)
    moreover have "councilModels st ! j \<noteq> Hole"
      using nh j by (metis nth_mem)
    ultimately have "(j, councilModels st ! j) \<in>
        set (filter (\<lambda>(i, s). s \<noteq> Hole \<and> int i \<noteq> int index) (enumerate 0 (councilModels st)))"
      using j by simp
    then have "filter (\<lambda>(i, s). s \<noteq> Hole \<and> int i \<noteq> int index) (enumerate 0 (councilModels st)) \<noteq> []"
      by (metis empty_iff list.set(1))
    then show ?thesis
      by (simp add: eq handleRemoveCouncilMember_def)
  qed
  from 1 2 show ?thesis by blast
qed

theorem remove_last_member_refused_witness:
  "length (councilModels sample_draft) = 1 \<and>
   click_remove_member 0 sample_draft = sample_draft \<and>
   councilModels (click_remove_member 0 sample_draft) \<noteq> []"
proof -
  have h: "length (councilModels sample_draft) = 1"
    by (simp add: sample_draft_def)
  have n: "councilModels sample_draft \<noteq> [] \<and> Hole \<notin> set (councilModels sample_draft)"
    by (simp add: sample_draft_def)
  show ?thesis
    using remove_last_member_refused [of sample_draft 0] h n by simp
qed

section \<open>Properties of the chairman select\<close>

lemma find_None_image: "(find (\<lambda>m. f m = v) xs = None) = (v \<notin> f ` set xs)"
  by (auto simp: find_None_iff)

text \<open>
  C7. No eligible chairman model is free. When the current chairman is not the id of
  an eligible model (a free legacy value, say), the select shows it in exactly one
  option, whose text ends in "(not recommended)"; when it is eligible there is no such
  extra option. Every option is either an eligible model of the catalog or that one
  annotated option of the current value, so a free model is never offered as a new
  choice.
\<close>

theorem chairman_options_exclude_free:
  "(\<forall>m \<in> set (chairmanModels st). \<not> is_free m \<and> m \<in> set (availableModels st)) \<and>
   (chairmanModel st \<notin> model_id ` set (chairmanModels st) \<longrightarrow>
      filter (\<lambda>opt. fst opt = chairmanModel st) (chairman_options st) =
        [(chairmanModel st,
          js_or (map_option model_name
                   (find (\<lambda>m. model_id m = chairmanModel st) (availableModels st)))
                (chairmanModel st)
            @ ascii '' (not recommended)'')]) \<and>
   (chairmanModel st \<in> model_id ` set (chairmanModels st) \<longrightarrow>
      chairman_options st = map (\<lambda>m. (model_id m, model_name m)) (chairmanModels st)) \<and>
   (\<forall>opt \<in> set (chairman_options st).
      (\<exists>m \<in> set (availableModels st). \<not> is_free m \<and> opt = (model_id m, model_name m)) \<or>
      (fst opt = chairmanModel st \<and> chairmanModel st \<notin> model_id ` set (chairmanModels st) \<and>
       (\<exists>n. snd opt = n @ ascii '' (not recommended)'')))"
proof -
  have 1: "\<forall>m \<in> set (chairmanModels st). \<not> is_free m \<and> m \<in> set (availableModels st)"
    by (simp add: chairmanModels_def)
  have f: "filter (\<lambda>opt. fst opt = v) (map (\<lambda>m. (model_id m, model_name m)) xs) = []"
    if "v \<notin> model_id ` set xs" for v xs
    using that by (induction xs) auto
  have 2: "filter (\<lambda>opt. fst opt = chairmanModel st) (chairman_options st) =
        [(chairmanModel st,
          js_or (map_option model_name
                   (find (\<lambda>m. model_id m = chairmanModel st) (availableModels st)))
                (chairmanModel st)
            @ ascii '' (not recommended)'')]"
    if "chairmanModel st \<notin> model_id ` set (chairmanModels st)"
  proof -
    have "find (\<lambda>m. model_id m = chairmanModel st) (chairmanModels st) = None"
      using that by (simp add: find_None_image)
    then show ?thesis
      using f [OF that] by (simp add: chairman_options_def)
  qed
  have 3: "chairman_options st = map (\<lambda>m. (model_id m, model_name m)) (chairmanModels st)"
    if "chairmanModel st \<in> model_id ` set (chairmanModels st)"
  proof -
    have "find (\<lambda>m. model_id m = chairmanModel st) (chairmanModels st) \<noteq> None"
      using that by (simp add: find_None_image)
    then show ?thesis
      by (auto simp: chairman_options_def)
  qed
  have 4: "(\<exists>m \<in> set (availableModels st). \<not> is_free m \<and> opt = (model_id m, model_name m)) \<or>
      (fst opt = chairmanModel st \<and> chairmanModel st \<notin> model_id ` set (chairmanModels st) \<and>
       (\<exists>n. snd opt = n @ ascii '' (not recommended)''))"
    if "opt \<in> set (chairman_options st)" for opt
  proof (cases "opt \<in> set (map (\<lambda>m. (model_id m, model_name m)) (chairmanModels st))")
    case True
    then show ?thesis
      using 1 by auto
  next
    case False
    with that have "find (\<lambda>m. model_id m = chairmanModel st) (chairmanModels st) = None"
      and "opt = (chairmanModel st,
          js_or (map_option model_name
                   (find (\<lambda>m. model_id m = chairmanModel st) (availableModels st)))
                (chairmanModel st)
            @ ascii '' (not recommended)'')"
      by (auto simp: chairman_options_def split: option.splits)
    then show ?thesis
      by (simp add: find_None_image)
  qed
  show ?thesis
    using 1 2 3 4 by (intro conjI impI ballI) simp_all
qed

theorem chairman_options_exclude_free_witness:
  "chairmanModel sample_view \<notin> model_id ` set (chairmanModels sample_view) \<and>
   filter (\<lambda>opt. fst opt = chairmanModel sample_view) (chairman_options sample_view) =
     [(ascii ''v/free'', ascii ''Free (not recommended)'')]"
proof -
  have h: "chairmanModel sample_view \<notin> model_id ` set (chairmanModels sample_view)"
    by (simp add: sample_view_def sample_catalog_def chairmanModels_def initial_view_def ascii_def)
  have v: "chairmanModel sample_view = ascii ''v/free''"
    by (simp add: sample_view_def)
  have r: "js_or (map_option model_name
             (find (\<lambda>m. model_id m = chairmanModel sample_view) (availableModels sample_view)))
             (chairmanModel sample_view) @ ascii '' (not recommended)'' =
           ascii ''Free (not recommended)''"
    by (simp add: sample_view_def sample_catalog_def initial_view_def js_or_def ascii_def)
  have "filter (\<lambda>opt. fst opt = chairmanModel sample_view) (chairman_options sample_view) =
        [(chairmanModel sample_view,
          js_or (map_option model_name
             (find (\<lambda>m. model_id m = chairmanModel sample_view) (availableModels sample_view)))
             (chairmanModel sample_view) @ ascii '' (not recommended)'')]"
    using chairman_options_exclude_free [of sample_view] h by (elim conjE) simp
  then have "filter (\<lambda>opt. fst opt = chairmanModel sample_view) (chairman_options sample_view) =
        [(chairmanModel sample_view, ascii ''Free (not recommended)'')]"
    by (simp only: r)
  then show ?thesis
    using h by (simp add: v)
qed

section \<open>Properties of the active tab\<close>

lemma Stage1_activeTab_stream_snoc:
  "Stage1_activeTab_stream (cs @ [c]) k = Stage1_activeTab_effect c (Stage1_activeTab_stream cs k)"
  by (induction cs arbitrary: k) simp_all

lemma Stage2_activeTab_stream_snoc:
  "Stage2_activeTab_stream (cs @ [c]) k = Stage2_activeTab_effect c (Stage2_activeTab_stream cs k)"
  by (induction cs arbitrary: k) simp_all

lemma Stage1_activeTab_stream_in_range:
  "\<forall>c \<in> set cs. \<exists>xs. c = Some xs \<and> k < length xs \<Longrightarrow> Stage1_activeTab_stream cs k = k"
  by (induction cs) (auto simp: Stage1_activeTab_effect_def)

lemma Stage2_activeTab_stream_in_range:
  "\<forall>c \<in> set cs. \<exists>xs. c = Some xs \<and> k < length xs \<Longrightarrow> Stage2_activeTab_stream cs k = k"
  by (induction cs) (auto simp: Stage2_activeTab_effect_def)

lemma Stage1_effect_valid: "rs \<noteq> [] \<Longrightarrow> Stage1_activeTab_effect (Some rs) j < length rs"
  by (cases rs) (auto simp: Stage1_activeTab_effect_def)

lemma Stage2_effect_valid: "rs \<noteq> [] \<Longrightarrow> Stage2_activeTab_effect (Some rs) j < length rs"
  by (cases rs) (auto simp: Stage2_activeTab_effect_def)

text \<open>
  C9. In both stage views, for a collection that has a last valid index (it is not
  empty): when the active index is out of range, as after the collection has shrunk,
  the effect sets it to \<open>length - 1\<close>; when the index is in range, as while the
  collection grows, the effect leaves it alone. This holds all along the arrival of
  entries: after the effects for any sequence of collection values that ends in a
  non-empty one the index is in range, a sequence of values that all keep the index in
  range never changes it, and every render of a non-empty collection already shows the
  tab that the effect is about to set. An empty or missing collection has no valid
  index: the effect keeps the index and nothing is rendered.
\<close>

theorem activeTab_clamp:
  "(rs \<noteq> [] \<and> length rs \<le> k \<longrightarrow>
      Stage1_activeTab_effect (Some rs) k = length rs - 1 \<and>
      Stage2_activeTab_effect (Some rs) k = length rs - 1) \<and>
   (k < length rs \<longrightarrow>
      Stage1_activeTab_effect (Some rs) k = k \<and> Stage2_activeTab_effect (Some rs) k = k) \<and>
   (rs \<noteq> [] \<longrightarrow>
      Stage1_activeTab_stream (cs @ [Some rs]) k < length rs \<and>
      Stage2_activeTab_stream (cs @ [Some rs]) k < length rs \<and>
      Stage1_safeActiveTab (Some rs) k = Some (Stage1_activeTab_effect (Some rs) k) \<and>
      Stage2_safeActiveTab (Some rs) k = Some (Stage2_activeTab_effect (Some rs) k)) \<and>
   ((\<forall>c \<in> set cs. \<exists>xs. c = Some xs \<and> k < length xs) \<longrightarrow>
      Stage1_activeTab_stream cs k = k \<and> Stage2_activeTab_stream cs k = k) \<and>
   (rs = [] \<longrightarrow>
      Stage1_activeTab_effect (Some rs) k = k \<and> Stage2_activeTab_effect (Some rs) k = k \<and>
      Stage1_safeActiveTab (Some rs) k = None \<and> Stage2_safeActiveTab (Some rs) k = None) \<and>
   Stage1_activeTab_effect (None :: 'a list option) k = k \<and>
   Stage2_activeTab_effect (None :: 'a list option) k = k \<and>
   Stage1_safeActiveTab (None :: 'a list option) k = None \<and>
   Stage2_safeActiveTab (None :: 'a list option) k = None"
proof -
  have 1: "Stage1_activeTab_effect (Some rs) k = length rs - 1 \<and>
      Stage2_activeTab_effect (Some rs) k = length rs - 1" if "rs \<noteq> []" "length rs \<le> k"
    using that by (simp add: Stage1_activeTab_effect_def Stage2_activeTab_effect_def)
  have 2: "Stage1_activeTab_effect (Some rs) k = k \<and> Stage2_activeTab_effect (Some rs) k = k"
    if "k < length rs"
    using that by (simp add: Stage1_activeTab_effect_def Stage2_activeTab_effect_def)
  have 3: "Stage1_activeTab_stream (cs @ [Some rs]) k < length rs \<and>
      Stage2_activeTab_stream (cs @ [Some rs]) k < length rs" if "rs \<noteq> []"
    using that
    by (simp add: Stage1_activeTab_stream_snoc Stage2_activeTab_stream_snoc
        Stage1_effect_valid Stage2_effect_valid)
  have 4: "Stage1_safeActiveTab (Some rs) k = Some (Stage1_activeTab_effect (Some rs) k) \<and>
      Stage2_safeActiveTab (Some rs) k = Some (Stage2_activeTab_effect (Some rs) k)"
    if "rs \<noteq> []"
    using that
    by (auto simp: Stage1_safeActiveTab_def Stage2_safeActiveTab_def
        Stage1_activeTab_effect_def Stage2_activeTab_effect_def min_def)
  have 5: "Stage1_activeTab_stream cs k = k \<and> Stage2_activeTab_stream cs k = k"
    if "\<forall>c \<in> set cs. \<exists>xs. c = Some xs \<and> k < length xs"
    using that by (simp add: Stage1_activeTab_stream_in_range Stage2_activeTab_stream_in_range)
  have 6: "Stage1_activeTab_effect (Some rs) k = k \<and> Stage2_activeTab_effect (Some rs) k = k \<and>
      Stage1_safeActiveTab (Some rs) k = None \<and> Stage2_safeActiveTab (Some rs) k = None"
    if "rs = []"
    using that
    by (simp add: Stage1_safeActiveTab_def Stage2_safeActiveTab_def
        Stage1_activeTab_effect_def Stage2_activeTab_effect_def)
  have 7: "Stage1_activeTab_effect (None :: 'a list option) k = k"
    "Stage2_activeTab_effect (None :: 'a list option) k = k"
    "Stage1_safeActiveTab (None :: 'a list option) k = None"
    "Stage2_safeActiveTab (None :: 'a list option) k = None"
    by (simp_all add: Stage1_safeActiveTab_def Stage2_safeActiveTab_def
        Stage1_activeTab_effect_def Stage2_activeTab_effect_def)
  from 1 2 3 4 5 6 7 show ?thesis
    by (intro conjI impI) simp_all
qed

theorem activeTab_clamp_witness:
  "Stage1_activeTab_effect (Some [True, False]) 5 = 1 \<and>
   Stage2_activeTab_effect (Some [True, False]) 5 = 1 \<and>
   Stage2_activeTab_stream [Some [True], Some [True, False]] 5 < 2 \<and>
   Stage2_safeActiveTab (Some [True, False]) 5 = Some 1 \<and>
   Stage1_activeTab_stream [Some [True], Some [True, False]] 0 = 0"
proof -
  have a: "[True, False] \<noteq> [] \<and> length [True, False] \<le> (5::nat)"
    by simp
  have b: "\<forall>c \<in> set [Some [True], Some [True, False]]. \<exists>xs. c = Some xs \<and> (0::nat) < length xs"
    by simp
  have c: "[Some [True]] @ [Some [True, False]] = [Some [True], Some [True, False]]"
    by simp
  show ?thesis
    using activeTab_clamp [of "[True, False]" 5 "[Some [True]]"]
      activeTab_clamp [of "[True]" 0 "[Some [True], Some [True, False]]"] a b
    unfolding c
    by (simp add: Stage1_activeTab_effect_def Stage2_activeTab_effect_def
        Stage2_safeActiveTab_def)
qed

section \<open>Properties of saving\<close>

lemma handleSave_updates_dom:
  "dom (handleSave_updates st) =
     {Search_provider, Full_content_results, Council_models, Chairman_model}
     \<union> (if key_changed (tavilyApiKey st) then {Tavily_api_key} else {})
     \<union> (if key_changed (braveApiKey st) then {Brave_api_key} else {})
     \<union> (if key_changed (openrouterApiKey st) then {Openrouter_api_key} else {})"
  by (auto simp: handleSave_updates_def Let_def split: if_splits)

text \<open>
  C3 (as amended). In the payload that a save sends, each of the three secret fields
  is present exactly when its input is not empty and does not start with the bullet
  character, and then carries the input; so when the three inputs are empty (only the
  provider was changed) the payload holds the four other fields and no secret.
\<close>

theorem secret_fields_sent_iff_changed:
  "(handleSave_updates st Tavily_api_key =
      (if tavilyApiKey st \<noteq> [] \<and> \<not> startsWith (tavilyApiKey st) [bullet]
       then Some (Str (tavilyApiKey st)) else None)) \<and>
   (handleSave_updates st Brave_api_key =
      (if braveApiKey st \<noteq> [] \<and> \<not> startsWith (braveApiKey st) [bullet]
       then Some (Str (braveApiKey st)) else None)) \<and>
   (handleSave_updates st Openrouter_api_key =
      (if openrouterApiKey st \<noteq> [] \<and> \<not> startsWith (openrouterApiKey st) [bullet]
       then Some (Str (openrouterApiKey st)) else None)) \<and>
   (tavilyApiKey st = [] \<and> braveApiKey st = [] \<and> openrouterApiKey st = [] \<longrightarrow>
      dom (handleSave_updates st) =
        {Search_provider, Full_content_results, Council_models, Chairman_model}) \<and>
   (\<exists>calls. snd (handleSave a st) = UpdateSettings (handleSave_updates st) # calls)"
proof -
  have "\<exists>calls. snd (handleSave a st) = UpdateSettings (handleSave_updates st) # calls"
    by (simp add: handleSave_def Let_def split: prod.splits)
  moreover have "tavilyApiKey st = [] \<and> braveApiKey st = [] \<and> openrouterApiKey st = [] \<longrightarrow>
      dom (handleSave_updates st) =
        {Search_provider, Full_content_results, Council_models, Chairman_model}"
    by (simp add: handleSave_updates_dom key_changed_def)
  ultimately show ?thesis
    by (simp add: handleSave_updates_def key_changed_def Let_def)
qed

theorem secret_fields_sent_iff_changed_witness:
  "handleSave_updates (initial_view\<lparr>selectedProvider := ascii ''brave''\<rparr>) Tavily_api_key = None \<and>
   handleSave_updates (initial_view\<lparr>selectedProvider := ascii ''brave''\<rparr>) Brave_api_key = None \<and>
   handleSave_updates (initial_view\<lparr>selectedProvider := ascii ''brave''\<rparr>) Openrouter_api_key = None \<and>
   dom (handleSave_updates (initial_view\<lparr>selectedProvider := ascii ''brave''\<rparr>)) =
     {Search_provider, Full_content_results, Council_models, Chairman_model} \<and>
   handleSave_updates (initial_view\<lparr>braveApiKey := ascii ''k1''\<rparr>) Brave_api_key =
     Some (Str (ascii ''k1''))"
  using secret_fields_sent_iff_changed [of "initial_view\<lparr>selectedProvider := ascii ''brave''\<rparr>"]
    secret_fields_sent_iff_changed [of "initial_view\<lparr>braveApiKey := ascii ''k1''\<rparr>"]
  by (simp add: initial_view_def startsWith_def ascii_def bullet_def)

text \<open>
  An input that starts with a bullet is neither empty nor the placeholder of sixteen
  bullets, and it is left out of the payload all the same.
\<close>

theorem secret_field_bullet_prefix_counterexample:
  "bullet # ascii ''abc'' \<noteq> [] \<and> bullet # ascii ''abc'' \<noteq> masked_placeholder \<and>
   handleSave_updates (initial_view\<lparr>tavilyApiKey := bullet # ascii ''abc''\<rparr>) Tavily_api_key = None"
  by (simp add: handleSave_updates_def key_changed_def startsWith_def masked_placeholder_def
      initial_view_def Let_def ascii_def bullet_def numeral_eq_Suc)

text \<open>
  C4. With an empty council roster the save button is disabled: a click on it leaves
  the state as it is and issues no call, hence no update call.
\<close>

theorem save_refused_on_empty_roster:
  "councilModels st = [] \<Longrightarrow> click_save a st = (st, [])"
  by (simp add: click_save_def save_button_disabled_def)

theorem save_refused_on_empty_roster_witness:
  "councilModels (initial_view\<lparr>settings := Some blank_settings\<rparr>) = [] \<and>
   click_save accepting_api
     (initial_view\<lparr>settings := Some blank_settings\<rparr>) = (initial_view\<lparr>settings := Some blank_settings\<rparr>, [])"
proof -
  have h: "councilModels (initial_view\<lparr>settings := Some blank_settings\<rparr>) = []"
    by (simp add: initial_view_def)
  show ?thesis
    using h save_refused_on_empty_roster [OF h] by simp
qed






lemma loadModels_eq:
  "loadModels a st =
     (st\<lparr>availableModels :=
          (case getModels a of
             None \<Rightarrow> availableModels st
           | Some data \<Rightarrow>
               (case models data of
                  None \<Rightarrow> availableModels st
                | Some ms \<Rightarrow> if ms = [] then availableModels st else ms)),
         isLoadingModels := False\<rparr>,
      [GetModels])"
  by (simp add: loadModels_def Let_def split: option.splits)

lemma loadSettings_rejected:
  "getSettings a = None \<Longrightarrow>
   loadSettings a st = (st\<lparr>error := Some (ascii ''Failed to load settings'')\<rparr>, [GetSettings])"
  by (simp add: loadSettings_def)

lemma loadSettings_resolved:
  "getSettings a = Some data \<Longrightarrow>
   loadSettings a st =
     (st\<lparr>settings := Some data,
         selectedProvider := js_or (search_provider data) (ascii ''duckduckgo''),
         fullContentResults := (case full_content_results data of None \<Rightarrow> 3 | Some n \<Rightarrow> n),
         councilModels := (case council_models data of None \<Rightarrow> [] | Some ms \<Rightarrow> ms),
         chairmanModel := js_or (chairman_model data) [],
         availableModels :=
          (case getModels a of
             None \<Rightarrow> availableModels st
           | Some data \<Rightarrow>
               (case models data of
                  None \<Rightarrow> availableModels st
                | Some ms \<Rightarrow> if ms = [] then availableModels st else ms)),
         isLoadingModels := False\<rparr>,
      [GetSettings, GetModels])"
  by (simp add: loadSettings_def loadModels_eq Let_def split: option.split)

lemma handleSave_rejected:
  "\<not> updateSettings a (handleSave_updates st) \<Longrightarrow>
   handleSave a st =
     (st\<lparr>isSaving := False, error := Some (ascii ''Failed to save settings''),
         success := False\<rparr>,
      [UpdateSettings (handleSave_updates st)])"
  by (simp add: handleSave_def Let_def)

lemma handleSave_resolved:
  "updateSettings a (handleSave_updates st) \<Longrightarrow>
   handleSave a st =
     ((fst (loadSettings a (st\<lparr>isSaving := True, error := None, success := True,
                               tavilyApiKey := [], braveApiKey := [],
                               openrouterApiKey := []\<rparr>)))\<lparr>isSaving := False\<rparr>,
      UpdateSettings (handleSave_updates st) #
        snd (loadSettings a (st\<lparr>isSaving := True, error := None, success := True,
                               tavilyApiKey := [], braveApiKey := [],
                               openrouterApiKey := []\<rparr>)))"
  by (simp add: handleSave_def Let_def split: prod.splits)

text \<open>
  C8. When the update call succeeds, the three key inputs are empty afterwards and the
  settings are fetched again right after the update; what the server answers becomes
  the persisted settings and the draft. When the update call fails, the state differs
  from the one before only in the error message (and the cleared saving and success
  flags): key inputs, roster and the other draft fields keep their values, and no
  further call is made.
\<close>

theorem save_clears_keys_or_keeps_draft:
  "(updateSettings a (handleSave_updates st) \<longrightarrow>
      tavilyApiKey (fst (handleSave a st)) = [] \<and>
      braveApiKey (fst (handleSave a st)) = [] \<and>
      openrouterApiKey (fst (handleSave a st)) = [] \<and>
      isSaving (fst (handleSave a st)) = False \<and>
      (\<exists>calls. snd (handleSave a st) =
         UpdateSettings (handleSave_updates st) # GetSettings # calls) \<and>
      (\<forall>data. getSettings a = Some data \<longrightarrow>
         settings (fst (handleSave a st)) = Some data \<and>
         success (fst (handleSave a st)) = True \<and>
         error (fst (handleSave a st)) = None \<and>
         selectedProvider (fst (handleSave a st)) =
           js_or (search_provider data) (ascii ''duckduckgo'') \<and>
         fullContentResults (fst (handleSave a st)) =
           (case full_content_results data of None \<Rightarrow> 3 | Some n \<Rightarrow> n) \<and>
         councilModels (fst (handleSave a st)) =
           (case council_models data of None \<Rightarrow> [] | Some ms \<Rightarrow> ms) \<and>
         chairmanModel (fst (handleSave a st)) = js_or (chairman_model data) [])) \<and>
   (\<not> updateSettings a (handleSave_updates st) \<longrightarrow>
      handleSave a st =
        (st\<lparr>isSaving := False, error := Some (ascii ''Failed to save settings''),
            success := False\<rparr>,
         [UpdateSettings (handleSave_updates st)]))"
proof (cases "updateSettings a (handleSave_updates st)")
  case False
  then show ?thesis
    by (simp add: handleSave_rejected)
next
  case ok: True
  show ?thesis
  proof (cases "getSettings a")
    case None
    then show ?thesis
      using ok by (simp add: handleSave_resolved loadSettings_rejected)
  next
    case (Some data)
    then show ?thesis
      using ok by (simp add: handleSave_resolved loadSettings_resolved)
  qed
qed

theorem save_clears_keys_or_keeps_draft_witness:
  "updateSettings accepting_api (handleSave_updates sample_draft) \<and>
   tavilyApiKey (fst (handleSave accepting_api sample_draft)) = [] \<and>
   settings (fst (handleSave accepting_api sample_draft)) = Some blank_settings \<and>
   \<not> updateSettings rejecting_api (handleSave_updates sample_draft) \<and>
   tavilyApiKey (fst (handleSave rejecting_api sample_draft)) = ascii ''k1'' \<and>
   councilModels (fst (handleSave rejecting_api sample_draft)) = [Id (ascii ''v/paid'')] \<and>
   error (fst (handleSave rejecting_api sample_draft)) = Some (ascii ''Failed to save settings'')"
proof -
  have ok: "updateSettings accepting_api (handleSave_updates sample_draft)"
    and g: "getSettings accepting_api = Some blank_settings"
    and no: "\<not> updateSettings rejecting_api (handleSave_updates sample_draft)"
    by (simp_all add: accepting_api_def rejecting_api_def)
  have d: "tavilyApiKey sample_draft = ascii ''k1''"
    "councilModels sample_draft = [Id (ascii ''v/paid'')]"
    by (simp_all add: sample_draft_def)
  show ?thesis
    using save_clears_keys_or_keeps_draft [of accepting_api sample_draft]
      save_clears_keys_or_keeps_draft [of rejecting_api sample_draft] ok g no d
    by simp
qed

end
